theory Spec2Isabelle
  imports Main "HOL-Library.Sublist"
begin

section \<open>Values and errors\<close>

text \<open>
  The values \<^verbatim>\<open>yaml.safe_load\<close> hands to \<^verbatim>\<open>build.py\<close>. A mapping is an association list
  in the loader's (document) order, with any value as key; the program only ever looks a
  mapping up by a string constant, so the lookup \<open>map_of m (YStr k)\<close> is exact. Any other
  scalar of the loader (a float, a date) is \<open>YScalar t s\<close>: the program observes it only
  through its truth value \<open>t\<close> and its \<^verbatim>\<open>str()\<close> text \<open>s\<close>.
\<close>

datatype yval =
    YNull
  | YBool bool
  | YInt int
  | YStr string
  | YList "yval list"
  | YMap "(yval \<times> yval) list"
  | YScalar bool string

datatype err_kind =
  OSError | YAMLError | TypeError | AttributeError | KeyError | ValueError | CalledProcessError

text \<open>How a run ends other than by returning: an exception nobody catches, or \<^verbatim>\<open>sys.exit\<close>.\<close>

datatype py_error = Raised err_kind | SystemExit nat

text \<open>What a run does to the outside: a line on standard output, a call of a subprocess
  with its argument vector, a file opened for writing and filled.\<close>

datatype event = Print string | Run "string list" | Write string string

section \<open>Constants of \<^verbatim>\<open>build.py\<close>\<close>

definition BASE_IMAGE :: string where
  "BASE_IMAGE = ''discourse/base:2.0.20250715-0020''"

definition DKR_PATH :: string where
  "DKR_PATH = ''dkr''"

definition CONTAINER_NAME :: string where
  "CONTAINER_NAME = ''local_discourse''"

definition MAGIC_SEPARATOR :: string where
  "MAGIC_SEPARATOR = [CHR 0x0A] @ ''_FILE_SEPERATOR_'' @ [CHR 0x0A]"

section \<open>String operations of the Python library\<close>

text \<open>\<^verbatim>\<open>sep.join(xs)\<close>.\<close>

fun str_join :: "string \<Rightarrow> string list \<Rightarrow> string" where
  "str_join sep [] = []"
| "str_join sep [x] = x"
| "str_join sep (x # y # ys) = x @ sep @ str_join sep (y # ys)"

text \<open>\<^verbatim>\<open>s.replace(old, new)\<close>: the occurrences of \<open>old\<close> are found from the left and do not
  overlap. With an empty \<open>old\<close> Python puts \<open>new\<close> around every character.\<close>

function str_replace :: "string \<Rightarrow> string \<Rightarrow> string \<Rightarrow> string" where
  "str_replace old new s =
     (if old = [] then new @ concat (map (\<lambda>c. c # new) s)
      else if s = [] then []
      else if prefix old s then new @ str_replace old new (drop (length old) s)
      else hd s # str_replace old new (tl s))"
  by pat_completeness auto
termination
  by (relation "measure (\<lambda>(old, new, s). length s)") auto

declare str_replace.simps [simp del]

text \<open>\<^verbatim>\<open>s.split(sep, 1)\<close> for a one-character separator that occurs in \<open>s\<close>: the text
  before the first separator and the text after it.\<close>

definition split1 :: "char \<Rightarrow> string \<Rightarrow> string \<times> string" where
  "split1 sep s = (takeWhile (\<lambda>c. c \<noteq> sep) s, tl (dropWhile (\<lambda>c. c \<noteq> sep) s))"

text \<open>\<^verbatim>\<open>s.strip()\<close> on the output of a subprocess: ASCII white space goes from both ends.\<close>

definition is_space :: "char \<Rightarrow> bool" where
  "is_space c = (c \<in> set [CHR 0x20, CHR 0x09, CHR 0x0A, CHR 0x0B, CHR 0x0C, CHR 0x0D])"

definition strip :: "string \<Rightarrow> string" where
  "strip s = rev (dropWhile is_space (rev (dropWhile is_space s)))"

text \<open>\<^verbatim>\<open>os.path.join(a, b)\<close> of \<^verbatim>\<open>posixpath\<close>: an absolute \<open>b\<close> discards \<open>a\<close>.\<close>

definition path_join :: "string \<Rightarrow> string \<Rightarrow> string" where
  "path_join a b =
     (if b \<noteq> [] \<and> hd b = CHR ''/'' then b
      else if a = [] \<or> last a = CHR ''/'' then a @ b
      else a @ ''/'' @ b)"

text \<open>\<^verbatim>\<open>str(i)\<close> of an integer.\<close>

function show_nat :: "nat \<Rightarrow> string" where
  "show_nat n =
     (if n < 10 then [char_of (48 + n)] else show_nat (n div 10) @ [char_of (48 + n mod 10)])"
  by pat_completeness auto
termination
  by (relation "measure id") auto

declare show_nat.simps [simp del]

definition show_int :: "int \<Rightarrow> string" where
  "show_int i = (if i < 0 then CHR ''-'' # show_nat (nat (- i)) else show_nat (nat i))"

section \<open>The variable substitutor\<close>

text \<open>
  \<^verbatim>\<open>substitute(params, s)\<close> is \<^verbatim>\<open>re.sub(r'\$(\w+)', replacer, s)\<close>: the text is scanned once
  from the left; at a \<open>$\<close> followed by at least one word character the longest run of word
  characters is the variable name, the replacement goes to the output and the scan goes on
  behind the name. The class \<^verbatim>\<open>\w\<close> belongs to the regular expression library; its
  membership test is the parameter \<open>word\<close>. The result is the new text and the lines
  printed, in order.
\<close>

definition warn_line :: "string \<Rightarrow> string" where
  "warn_line var_name =
     ''WARN: found parameter $'' @ var_name @ '' but could not substitute it!''"

function substitute :: "(char \<Rightarrow> bool) \<Rightarrow> (string \<rightharpoonup> string) \<Rightarrow> string \<Rightarrow> string \<times> string list" where
  "substitute word params s =
     (case s of
        [] \<Rightarrow> ([], [])
      | c # rest \<Rightarrow>
          let var_name = takeWhile word rest in
          if c = CHR ''$'' \<and> var_name \<noteq> [] then
            (let (out, warns) = substitute word params (dropWhile word rest) in
             case params var_name of
               Some v \<Rightarrow> (v @ out, warns)
             | None \<Rightarrow> (CHR ''$'' # var_name @ out, warn_line var_name # warns))
          else
            (let (out, warns) = substitute word params rest in (c # out, warns)))"
  by pat_completeness auto
termination
  by (relation "measure (\<lambda>(word, params, s). length s)")
     (auto simp: length_dropWhile_le less_Suc_eq_le)

declare substitute.simps [simp del]

text \<open>The word characters of ASCII text: letters, digits and the underscore.\<close>

definition ascii_word :: "char \<Rightarrow> bool" where
  "ascii_word c =
     (let n = of_char c :: nat in
      (48 \<le> n \<and> n \<le> 57) \<or> (65 \<le> n \<and> n \<le> 90) \<or> (97 \<le> n \<and> n \<le> 122) \<or> n = 95)"

section \<open>The environment of a run\<close>

text \<open>
  What the program asks of the file system, of the YAML library, of the interpreter and of
  the container engine is not code of \<^verbatim>\<open>build.py\<close>; a run is modelled against a record
  of these answers. \<open>read_file\<close> and \<open>safe_load\<close> answer \<open>Inl msg\<close> when the call raises,
  \<open>msg\<close> being the text of the exception. \<open>check_output\<close> and \<open>check_call\<close> answer for
  one argument vector; no run starts the same vector twice. \<open>container_str\<close> is \<^verbatim>\<open>str()\<close> of a
  list or a mapping, \<open>stem\<close> is \<^verbatim>\<open>Path(p).stem\<close>, \<open>abspath\<close> is \<^verbatim>\<open>os.path.abspath\<close>,
  \<open>open_w\<close> says how opening a file for writing fails, if it does.
\<close>

record world =
  path_exists :: "string \<Rightarrow> bool"
  read_file :: "string \<Rightarrow> string + string"
  open_w :: "string \<Rightarrow> err_kind option"
  safe_load :: "string \<Rightarrow> string + yval"
  dump :: "yval \<Rightarrow> string"
  container_str :: "yval \<Rightarrow> string"
  stem :: "string \<Rightarrow> string"
  abspath :: "string \<Rightarrow> string"
  check_output :: "string list \<Rightarrow> err_kind + string"
  check_call :: "string list \<Rightarrow> err_kind option"

section \<open>Operations of the interpreter on loaded values\<close>

text \<open>\<^verbatim>\<open>str(v)\<close>, also what an f-string does with \<open>v\<close>.\<close>

definition py_str :: "world \<Rightarrow> yval \<Rightarrow> string" where
  "py_str w v =
     (case v of
        YNull \<Rightarrow> ''None''
      | YBool b \<Rightarrow> (if b then ''True'' else ''False'')
      | YInt i \<Rightarrow> show_int i
      | YStr s \<Rightarrow> s
      | YScalar t s \<Rightarrow> s
      | _ \<Rightarrow> container_str w v)"

text \<open>The truth value of \<open>v\<close>, as \<^verbatim>\<open>v or ''\<close> tests it.\<close>

definition truthy :: "yval \<Rightarrow> bool" where
  "truthy v =
     (case v of
        YNull \<Rightarrow> False
      | YBool b \<Rightarrow> b
      | YInt i \<Rightarrow> i \<noteq> 0
      | YStr s \<Rightarrow> s \<noteq> []
      | YList xs \<Rightarrow> xs \<noteq> []
      | YMap m \<Rightarrow> m \<noteq> []
      | YScalar t s \<Rightarrow> t)"

text \<open>\<^verbatim>\<open>k in v\<close> for a string \<open>k\<close>: a key of a mapping, a piece of a string, an element of
  a list; a type error on anything else.\<close>

definition py_contains :: "string \<Rightarrow> yval \<Rightarrow> py_error + bool" where
  "py_contains k v =
     (case v of
        YMap m \<Rightarrow> Inr (YStr k \<in> set (map fst m))
      | YStr s \<Rightarrow> Inr (sublist k s)
      | YList xs \<Rightarrow> Inr (YStr k \<in> set xs)
      | _ \<Rightarrow> Inl (Raised TypeError))"

text \<open>\<^verbatim>\<open>v[k]\<close> for a string \<open>k\<close>.\<close>

definition py_getitem :: "yval \<Rightarrow> string \<Rightarrow> py_error + yval" where
  "py_getitem v k =
     (case v of
        YMap m \<Rightarrow> (case map_of m (YStr k) of Some x \<Rightarrow> Inr x | None \<Rightarrow> Inl (Raised KeyError))
      | _ \<Rightarrow> Inl (Raised TypeError))"

text \<open>The elements a \<^verbatim>\<open>for\<close> loop over \<open>v\<close> sees.\<close>

definition py_iter :: "yval \<Rightarrow> py_error + yval list" where
  "py_iter v =
     (case v of
        YList xs \<Rightarrow> Inr xs
      | YStr s \<Rightarrow> Inr (map (\<lambda>c. YStr [c]) s)
      | YMap m \<Rightarrow> Inr (map fst m)
      | _ \<Rightarrow> Inl (Raised TypeError))"

text \<open>\<^verbatim>\<open>v.items()\<close>: only a mapping has the method.\<close>

definition py_items :: "yval \<Rightarrow> py_error + (yval \<times> yval) list" where
  "py_items v = (case v of YMap m \<Rightarrow> Inr m | _ \<Rightarrow> Inl (Raised AttributeError))"

text \<open>\<^verbatim>\<open>d[k] = x\<close> and \<^verbatim>\<open>del d[k]\<close> on the entries of a mapping, for a string \<open>k\<close>: a new key
  goes to the end, a known one keeps its place.\<close>

fun dict_set :: "(yval \<times> yval) list \<Rightarrow> string \<Rightarrow> yval \<Rightarrow> (yval \<times> yval) list" where
  "dict_set [] k x = [(YStr k, x)]"
| "dict_set ((k', x') # m) k x =
     (if k' = YStr k then (k', x) # m else (k', x') # dict_set m k x)"

definition dict_del :: "(yval \<times> yval) list \<Rightarrow> string \<Rightarrow> (yval \<times> yval) list" where
  "dict_del m k = filter (\<lambda>(k', x'). k' \<noteq> YStr k) m"

text \<open>An argument vector for \<^verbatim>\<open>subprocess\<close> or for \<^verbatim>\<open>" ".join\<close>: every element has to be a
  string.\<close>

fun str_args :: "yval list \<Rightarrow> py_error + string list" where
  "str_args [] = Inr []"
| "str_args (YStr s # vs) = (case str_args vs of Inl e \<Rightarrow> Inl e | Inr ss \<Rightarrow> Inr (s # ss))"
| "str_args (v # vs) = Inl (Raised TypeError)"

text \<open>\<^verbatim>\<open>v.get(k, default)\<close> and \<^verbatim>\<open>v.copy()\<close>; \<^verbatim>\<open>v[k] = x\<close> and \<^verbatim>\<open>del v[k]\<close> on a copy.\<close>

definition py_get :: "yval \<Rightarrow> string \<Rightarrow> yval \<Rightarrow> py_error + yval" where
  "py_get v k dflt =
     (case v of
        YMap m \<Rightarrow> Inr (case map_of m (YStr k) of Some x \<Rightarrow> x | None \<Rightarrow> dflt)
      | _ \<Rightarrow> Inl (Raised AttributeError))"

definition py_copy :: "yval \<Rightarrow> py_error + yval" where
  "py_copy v =
     (case v of
        YMap m \<Rightarrow> Inr (YMap m)
      | YList xs \<Rightarrow> Inr (YList xs)
      | _ \<Rightarrow> Inl (Raised AttributeError))"

definition py_setitem :: "yval \<Rightarrow> string \<Rightarrow> yval \<Rightarrow> py_error + yval" where
  "py_setitem v k x =
     (case v of YMap m \<Rightarrow> Inr (YMap (dict_set m k x)) | _ \<Rightarrow> Inl (Raised TypeError))"

definition py_delitem :: "yval \<Rightarrow> string \<Rightarrow> py_error + yval" where
  "py_delitem v k =
     (case v of
        YMap m \<Rightarrow>
          (if YStr k \<in> set (map fst m) then Inr (YMap (dict_del m k)) else Inl (Raised KeyError))
      | _ \<Rightarrow> Inl (Raised TypeError))"

text \<open>Sequencing of steps that may raise: the first error ends the sequence.\<close>

definition and_then :: "py_error + 'a \<Rightarrow> ('a \<Rightarrow> py_error + 'b) \<Rightarrow> py_error + 'b" where
  "and_then r k = (case r of Inl err \<Rightarrow> Inl err | Inr v \<Rightarrow> k v)"

text \<open>
  \<^verbatim>\<open>params.update(v)\<close>. A mapping gives its entries. Anything else is read as a sequence
  of pairs: each element has to be a sequence of length two, whose first element is the
  key and has to be hashable. The parameter set is a map from keys to values; the
  program's only use for it would be a lookup by a variable name, a string.
\<close>

definition pair_of :: "yval \<Rightarrow> py_error + (yval \<times> yval)" where
  "pair_of item =
     and_then (py_iter item) (\<lambda>xs.
       case xs of
         [k, x] \<Rightarrow> (case k of YList _ \<Rightarrow> Inl (Raised TypeError)
                            | YMap _ \<Rightarrow> Inl (Raised TypeError)
                            | _ \<Rightarrow> Inr (k, x))
       | _ \<Rightarrow> Inl (Raised ValueError))"

fun pairs_of :: "yval list \<Rightarrow> py_error + (yval \<times> yval) list" where
  "pairs_of [] = Inr []"
| "pairs_of (item # items) =
     and_then (pair_of item) (\<lambda>kv. and_then (pairs_of items) (\<lambda>kvs. Inr (kv # kvs)))"

fun update_all :: "(yval \<rightharpoonup> yval) \<Rightarrow> (yval \<times> yval) list \<Rightarrow> (yval \<rightharpoonup> yval)" where
  "update_all ps [] = ps"
| "update_all ps ((k, x) # kvs) = update_all (ps(k \<mapsto> x)) kvs"

definition dict_update :: "(yval \<rightharpoonup> yval) \<Rightarrow> yval \<Rightarrow> py_error + (yval \<rightharpoonup> yval)" where
  "dict_update ps v =
     (case v of
        YMap m \<Rightarrow> Inr (update_all ps m)
      | _ \<Rightarrow> and_then (py_iter v) (\<lambda>items. and_then (pairs_of items) (\<lambda>kvs. Inr (update_all ps kvs))))"

section \<open>The composition loop of \<^verbatim>\<open>main\<close>\<close>

text \<open>The variables the loop over \<^verbatim>\<open>input_parts\<close> updates. \<open>dkrargs\<close> holds loaded values:
  \<^verbatim>\<open>docker_args\<close> extends it with whatever the document lists.\<close>

record acc =
  params :: "yval \<rightharpoonup> yval"
  build_parts :: "string list"
  dkrargs :: "yval list"
  base_image :: yval

definition init_acc :: acc where
  "init_acc = \<lparr>params = Map.empty, build_parts = [], dkrargs = [], base_image = YStr BASE_IMAGE\<rparr>"

text \<open>Lines 138 and 139: \<^verbatim>\<open>params\<close>.\<close>

definition step_params :: "yval \<Rightarrow> acc \<Rightarrow> py_error + acc" where
  "step_params yml a =
     and_then (py_contains ''params'' yml) (\<lambda>present.
       if present then
         and_then (py_getitem yml ''params'') (\<lambda>v.
         and_then (dict_update (params a) v) (\<lambda>ps. Inr (a\<lparr>params := ps\<rparr>)))
       else Inr a)"

text \<open>Lines 143 to 154: \<^verbatim>\<open>build\<close> and \<^verbatim>\<open>build_hooks\<close> go to a copy of the document under the
  keys \<^verbatim>\<open>run\<close> and \<^verbatim>\<open>hooks\<close>, and the copy is dumped.\<close>

definition step_build :: "world \<Rightarrow> yval \<Rightarrow> acc \<Rightarrow> py_error + acc" where
  "step_build w yml a =
     and_then (py_contains ''build'' yml) (\<lambda>has_build.
     and_then (if has_build then Inr True else py_contains ''build_hooks'' yml) (\<lambda>any.
       if any then
         and_then (py_copy yml) (\<lambda>byml.
         and_then (if has_build then
                 and_then (py_getitem yml ''build'') (\<lambda>v.
                 and_then (py_setitem byml ''run'' v) (\<lambda>b. py_delitem b ''build''))
               else Inr byml) (\<lambda>byml.
         and_then (py_contains ''build_hooks'' yml) (\<lambda>has_hooks.
         and_then (if has_hooks then
                 and_then (py_getitem yml ''build_hooks'') (\<lambda>v.
                 and_then (py_setitem byml ''hooks'' v) (\<lambda>b. py_delitem b ''build_hooks''))
               else Inr byml) (\<lambda>byml.
           Inr (a\<lparr>build_parts := build_parts a @ [dump w byml]\<rparr>)))))
       else Inr a))"

text \<open>Lines 158 and 163: the text of an \<^verbatim>\<open>env\<close> or \<^verbatim>\<open>labels\<close> value,
  \<^verbatim>\<open>str(v or '').replace("{config}", config_name)\<close>.\<close>

definition config_value :: "world \<Rightarrow> string \<Rightarrow> yval \<Rightarrow> string" where
  "config_value w config_name v =
     str_replace ''{config}'' config_name (py_str w (if truthy v then v else YStr []))"

text \<open>Lines 156 to 164: one flag and one \<^verbatim>\<open>key=value\<close> for every entry of the section.\<close>

definition flag_pairs :: "world \<Rightarrow> string \<Rightarrow> string \<Rightarrow> (yval \<times> yval) list \<Rightarrow> yval list" where
  "flag_pairs w flag config_name m =
     concat (map (\<lambda>(k, v). [YStr flag, YStr (py_str w k @ ''='' @ config_value w config_name v)]) m)"

definition step_section :: "world \<Rightarrow> string \<Rightarrow> string \<Rightarrow> string \<Rightarrow> yval \<Rightarrow> acc \<Rightarrow> py_error + acc" where
  "step_section w section flag config_name yml a =
     and_then (py_contains section yml) (\<lambda>present.
       if present then
         and_then (py_getitem yml section) (\<lambda>sec.
         and_then (py_items sec) (\<lambda>m.
           Inr (a\<lparr>dkrargs := dkrargs a @ flag_pairs w flag config_name m\<rparr>)))
       else Inr a)"

definition step_env :: "world \<Rightarrow> string \<Rightarrow> yval \<Rightarrow> acc \<Rightarrow> py_error + acc" where
  "step_env w config_name yml a = step_section w ''env'' ''-e'' config_name yml a"

definition step_labels :: "world \<Rightarrow> string \<Rightarrow> yval \<Rightarrow> acc \<Rightarrow> py_error + acc" where
  "step_labels w config_name yml a = step_section w ''labels'' ''-l'' config_name yml a"

text \<open>Lines 168 to 172: the two arguments one \<^verbatim>\<open>expose\<close> entry gives. \<^verbatim>\<open>port.split\<close> exists
  on a string only.\<close>

definition expose_port :: "world \<Rightarrow> yval \<Rightarrow> py_error + yval list" where
  "expose_port w port =
     and_then (py_contains ''='' port) (\<lambda>has_eq.
       if has_eq then
         (case port of
            YStr s \<Rightarrow> (case split1 CHR ''='' s of
                         (host, container) \<Rightarrow> Inr [YStr ''--expose'', YStr (host @ '':'' @ container)])
          | _ \<Rightarrow> Inl (Raised AttributeError))
       else Inr [YStr ''-p'', YStr (py_str w port)])"

fun expose_ports :: "world \<Rightarrow> yval list \<Rightarrow> py_error + yval list" where
  "expose_ports w [] = Inr []"
| "expose_ports w (port # ports) =
     and_then (expose_port w port) (\<lambda>xs. and_then (expose_ports w ports) (\<lambda>ys. Inr (xs @ ys)))"

text \<open>Lines 166 to 172: \<^verbatim>\<open>expose\<close>.\<close>

definition step_expose :: "world \<Rightarrow> yval \<Rightarrow> acc \<Rightarrow> py_error + acc" where
  "step_expose w yml a =
     and_then (py_contains ''expose'' yml) (\<lambda>present.
       if present then
         and_then (py_getitem yml ''expose'') (\<lambda>sec.
         and_then (py_iter sec) (\<lambda>ports.
         and_then (expose_ports w ports) (\<lambda>xs. Inr (a\<lparr>dkrargs := dkrargs a @ xs\<rparr>))))
       else Inr a)"

text \<open>Lines 175 to 181: the two arguments one \<^verbatim>\<open>volumes\<close> entry gives. \<^verbatim>\<open>startswith\<close> exists
  on a string only; a host path that starts with \<^verbatim>\<open>./\<close> is stored back as absolute.\<close>

definition volume_arg :: "world \<Rightarrow> yval \<Rightarrow> py_error + yval list" where
  "volume_arg w entry =
     and_then (py_getitem entry ''volume'') (\<lambda>volume.
     and_then (py_getitem volume ''host'') (\<lambda>h.
       case h of
         YStr s \<Rightarrow>
           and_then (if prefix ''./'' s then py_setitem volume ''host'' (YStr (abspath w s))
                 else Inr volume) (\<lambda>volume.
           and_then (py_getitem volume ''host'') (\<lambda>host.
           and_then (py_getitem volume ''guest'') (\<lambda>guest.
             Inr [YStr ''-v'', YStr (py_str w host @ '':'' @ py_str w guest)])))
       | _ \<Rightarrow> Inl (Raised AttributeError)))"

fun volume_args :: "world \<Rightarrow> yval list \<Rightarrow> py_error + yval list" where
  "volume_args w [] = Inr []"
| "volume_args w (entry # entries) =
     and_then (volume_arg w entry) (\<lambda>xs. and_then (volume_args w entries) (\<lambda>ys. Inr (xs @ ys)))"

text \<open>Lines 174 to 181: \<^verbatim>\<open>volumes\<close>.\<close>

definition step_volumes :: "world \<Rightarrow> yval \<Rightarrow> acc \<Rightarrow> py_error + acc" where
  "step_volumes w yml a =
     and_then (py_contains ''volumes'' yml) (\<lambda>present.
       if present then
         and_then (py_get yml ''volumes'' (YList [])) (\<lambda>sec.
         and_then (py_iter sec) (\<lambda>entries.
         and_then (volume_args w entries) (\<lambda>xs. Inr (a\<lparr>dkrargs := dkrargs a @ xs\<rparr>))))
       else Inr a)"

text \<open>Lines 185 and 186: \<^verbatim>\<open>docker_args\<close>.\<close>

definition step_docker_args :: "yval \<Rightarrow> acc \<Rightarrow> py_error + acc" where
  "step_docker_args yml a =
     and_then (py_contains ''docker_args'' yml) (\<lambda>present.
       if present then
         and_then (py_getitem yml ''docker_args'') (\<lambda>sec.
         and_then (py_iter sec) (\<lambda>xs. Inr (a\<lparr>dkrargs := dkrargs a @ xs\<rparr>)))
       else Inr a)"

text \<open>Lines 188 and 189: \<^verbatim>\<open>base_image\<close>.\<close>

definition step_base_image :: "yval \<Rightarrow> acc \<Rightarrow> py_error + acc" where
  "step_base_image yml a =
     and_then (py_contains ''base_image'' yml) (\<lambda>present.
       if present then and_then (py_getitem yml ''base_image'') (\<lambda>v. Inr (a\<lparr>base_image := v\<rparr>))
       else Inr a)"

text \<open>Lines 137 to 189: the body of the loop, for one document already loaded.\<close>

definition process_yml :: "world \<Rightarrow> string \<Rightarrow> yval \<Rightarrow> acc \<Rightarrow> py_error + acc" where
  "process_yml w config_name yml a =
     and_then (step_params yml a) (\<lambda>a.
     and_then (step_build w yml a) (\<lambda>a.
     and_then (step_env w config_name yml a) (\<lambda>a.
     and_then (step_labels w config_name yml a) (\<lambda>a.
     and_then (step_expose w yml a) (\<lambda>a.
     and_then (step_volumes w yml a) (\<lambda>a.
     and_then (step_docker_args yml a) (\<lambda>a.
     step_base_image yml a)))))))"

definition process_part :: "world \<Rightarrow> string \<Rightarrow> string \<Rightarrow> acc \<Rightarrow> py_error + acc" where
  "process_part w config_name part a =
     (case safe_load w part of
        Inl msg \<Rightarrow> Inl (Raised YAMLError)
      | Inr yml \<Rightarrow> process_yml w config_name yml a)"

text \<open>Lines 136 to 189: the loop.\<close>

fun process_parts :: "world \<Rightarrow> string \<Rightarrow> string list \<Rightarrow> acc \<Rightarrow> py_error + acc" where
  "process_parts w config_name [] a = Inr a"
| "process_parts w config_name (part # parts) a =
     and_then (process_part w config_name part a) (process_parts w config_name parts)"

section \<open>The template loader\<close>

text \<open>A computation of the program: the events it causes, in order, and how it ends.\<close>

type_synonym 'a io = "event list \<times> (py_error + 'a)"

definition io_bind :: "'a io \<Rightarrow> ('a \<Rightarrow> 'b io) \<Rightarrow> 'b io" where
  "io_bind m f =
     (case m of
        (ev, Inl e) \<Rightarrow> (ev, Inl e)
      | (ev, Inr x) \<Rightarrow> (case f x of (ev', r) \<Rightarrow> (ev @ ev', r)))"

definition io_print :: "string \<Rightarrow> unit io" where
  "io_print line = ([Print line], Inr ())"

definition template_read_error :: "string \<Rightarrow> string \<Rightarrow> string" where
  "template_read_error full_template_path msg =
     ''Error reading template '' @ full_template_path @ '': '' @ msg"

definition template_not_found :: "world \<Rightarrow> yval \<Rightarrow> string list \<Rightarrow> string" where
  "template_not_found w template template_paths =
     ''Error: template '' @ [CHR 0x27] @ py_str w template @ [CHR 0x27]
       @ '' not found in any of the template paths: ''
       @ container_str w (YList (map YStr template_paths))"

text \<open>Lines 46 to 57: the search for one template. \<^verbatim>\<open>os.path.join\<close> wants a string; a path
  that exists and cannot be read prints a line and the search goes on.\<close>

fun find_template :: "world \<Rightarrow> yval \<Rightarrow> string list \<Rightarrow> string option io" where
  "find_template w template [] = ([], Inr None)"
| "find_template w template (template_path # rest) =
     (case template of
        YStr t \<Rightarrow>
          (let full_template_path = path_join template_path t in
           if path_exists w full_template_path then
             (case read_file w full_template_path of
                Inr content \<Rightarrow> ([], Inr (Some content))
              | Inl msg \<Rightarrow>
                  io_bind (io_print (template_read_error full_template_path msg))
                    (\<lambda>_. find_template w template rest))
           else find_template w template rest)
      | _ \<Rightarrow> ([], Inl (Raised TypeError)))"

text \<open>Lines 42 to 61: the loop over the templates.\<close>

fun load_templates :: "world \<Rightarrow> string list \<Rightarrow> yval list \<Rightarrow> string list io" where
  "load_templates w template_paths [] = ([], Inr [])"
| "load_templates w template_paths (template # templates) =
     io_bind (find_template w template template_paths) (\<lambda>found.
       case found of
         None \<Rightarrow>
           io_bind (io_print (template_not_found w template template_paths))
             (\<lambda>_. ([], Inl (SystemExit 1)))
       | Some content \<Rightarrow>
           io_bind (load_templates w template_paths templates)
             (\<lambda>contents. ([], Inr (content # contents))))"

text \<open>Lines 25 to 66: \<^verbatim>\<open>load_config\<close>. Whatever goes wrong while the config file is read
  and loaded is caught, printed and turned into exit status 1.\<close>

definition load_config :: "world \<Rightarrow> string \<Rightarrow> string list \<Rightarrow> string list io" where
  "load_config w config_file template_paths =
     (case read_file w config_file of
        Inl msg \<Rightarrow> ([Print (''Error reading config file: '' @ msg)], Inl (SystemExit 1))
      | Inr config_data \<Rightarrow>
          (case safe_load w config_data of
             Inl msg \<Rightarrow> ([Print (''Error reading config file: '' @ msg)], Inl (SystemExit 1))
           | Inr config_yml \<Rightarrow>
               io_bind ([], py_get config_yml ''templates'' (YList [])) (\<lambda>templates.
               io_bind ([], py_iter templates) (\<lambda>ts.
               io_bind (load_templates w template_paths ts) (\<lambda>contents.
                 ([], Inr (''hack: true'' # contents @ [config_data])))))))"

section \<open>The command line driver\<close>

record args =
  command :: string
  config_name :: string
  template_root :: "string list"

text \<open>\<^verbatim>\<open>subprocess.check_call\<close>: every argument has to be a string before anything is
  started.\<close>

definition io_call :: "world \<Rightarrow> yval list \<Rightarrow> unit io" where
  "io_call w vs =
     (case str_args vs of
        Inl e \<Rightarrow> ([], Inl e)
      | Inr argv \<Rightarrow>
          ([Run argv], case check_call w argv of None \<Rightarrow> Inr () | Some k \<Rightarrow> Inl (Raised k)))"

text \<open>\<^verbatim>\<open>open(path, "w", newline='\n')\<close> and the write: the text goes out as it is.\<close>

definition io_write :: "world \<Rightarrow> string \<Rightarrow> string \<Rightarrow> unit io" where
  "io_write w path content =
     (case open_w w path of
        Some k \<Rightarrow> ([], Inl (Raised k))
      | None \<Rightarrow> ([Write path content], Inr ()))"

text \<open>Line 117: the running container, \<^verbatim>\<open>check_output([...]).strip().decode()\<close>.\<close>

definition ps_argv :: "string \<Rightarrow> string list" where
  "ps_argv name = [''docker'', ''ps'', ''-q'', ''-f'', ''name='' @ name]"

definition find_cid :: "world \<Rightarrow> string \<Rightarrow> yval io" where
  "find_cid w name =
     ([Run (ps_argv name)],
      case check_output w (ps_argv name) of
        Inl k \<Rightarrow> Inl (Raised k)
      | Inr out \<Rightarrow> Inr (YStr (strip out)))"

definition image_tag :: "string \<Rightarrow> string" where
  "image_tag name = CONTAINER_NAME @ ''/'' @ name"

definition build_argv :: "world \<Rightarrow> string \<Rightarrow> yval \<Rightarrow> yval list" where
  "build_argv w name img =
     map YStr [''docker'', ''build'', ''--no-cache'', ''-t'', image_tag name, ''--build-arg'',
               ''BASE_IMAGE='' @ py_str w img, DKR_PATH]"

definition run_argv :: "string \<Rightarrow> yval list \<Rightarrow> yval list" where
  "run_argv name dkr =
     map YStr [''docker'', ''run'', ''--rm'', ''-d'', ''-i'', ''--name'', name] @ dkr
       @ [YStr (image_tag name)]"

definition start_cmd_argv :: "string \<Rightarrow> yval list \<Rightarrow> yval list" where
  "start_cmd_argv name dkr =
     map YStr [''docker'', ''run'', ''--rm'', ''-i'', ''--name'', name] @ dkr
       @ [YStr (image_tag name)]"

text \<open>Lines 119 to 211: what \<^verbatim>\<open>build\<close>, \<^verbatim>\<open>rebuild\<close>, \<^verbatim>\<open>start\<close> and \<^verbatim>\<open>start-cmd\<close> do.
  \<^verbatim>\<open>cid is None\<close> is the test \<open>cid = YNull\<close>.\<close>

definition compose_and_run :: "world \<Rightarrow> string \<Rightarrow> string \<Rightarrow> string list \<Rightarrow> yval \<Rightarrow> unit io" where
  "compose_and_run w cmd name input_parts cid =
     io_bind (if cmd = ''rebuild'' \<and> truthy cid
              then io_call w [YStr ''docker'', YStr ''stop'', cid] else ([], Inr ())) (\<lambda>_.
     io_bind ([], process_parts w name input_parts init_acc) (\<lambda>a.
     io_bind (io_write w (path_join DKR_PATH ''init'') (str_join MAGIC_SEPARATOR input_parts)) (\<lambda>_.
     io_bind (io_write w (path_join DKR_PATH ''build'')
                (str_join MAGIC_SEPARATOR (build_parts a))) (\<lambda>_.
     io_bind (if cmd \<in> set [''build'', ''rebuild'']
              then io_call w (build_argv w name (base_image a)) else ([], Inr ())) (\<lambda>_.
       if cmd \<in> set [''start'', ''rebuild''] then
         (if cmd = ''rebuild'' \<and> cid = YNull then ([], Inr ())
          else io_call w (run_argv name (dkrargs a)))
       else if cmd = ''start-cmd'' then
         io_bind ([], str_args (start_cmd_argv name (dkrargs a)))
           (\<lambda>argv. io_print (str_join '' '' argv))
       else ([], Inr ()))))))"

text \<open>Lines 110 to 221: \<^verbatim>\<open>main\<close>, after the command line is parsed.\<close>

definition main :: "world \<Rightarrow> args \<Rightarrow> unit io" where
  "main w args =
     (let config_file = config_name args; name = stem w config_file in
      io_bind (load_config w config_file (template_root args)) (\<lambda>input_parts.
      io_bind (find_cid w name) (\<lambda>cid.
        if command args \<in> set [''build'', ''rebuild'', ''start'', ''start-cmd''] then
          compose_and_run w (command args) name input_parts cid
        else if command args = ''restart'' then
          (if truthy cid then io_call w [YStr ''docker'', YStr ''restart'', cid]
           else ([], Inr ()))
        else if command args = ''stop'' then
          (if truthy cid then io_call w [YStr ''docker'', YStr ''stop'', cid]
           else ([], Inr ()))
        else if command args = ''enter'' then
          io_call w (map YStr [''docker'', ''exec'', ''-it'', name, ''/bin/bash'', ''--login''])
        else if command args = ''logs'' then
          io_call w (map YStr [''docker'', ''logs'', name])
        else ([], Inr ()))))"

section \<open>Notions of the specification\<close>

text \<open>
  A text cut into pieces: free text and \<open>$name\<close> tokens. The cut is the one into tokens of
  the specification when every name is a non-empty run of word characters that the next
  piece does not continue, and no free text holds a \<open>$\<close> with a word character behind it.
\<close>

datatype piece = Text string | Token string

fun piece_text :: "piece \<Rightarrow> string" where
  "piece_text (Text s) = s"
| "piece_text (Token n) = CHR ''$'' # n"

definition source_text :: "piece list \<Rightarrow> string" where
  "source_text ps = concat (map piece_text ps)"

definition starts_word :: "(char \<Rightarrow> bool) \<Rightarrow> string \<Rightarrow> bool" where
  "starts_word word s = (case s of [] \<Rightarrow> False | c # _ \<Rightarrow> word c)"

fun plain :: "(char \<Rightarrow> bool) \<Rightarrow> string \<Rightarrow> bool" where
  "plain word [] = True"
| "plain word (c # s) = ((c = CHR ''$'' \<longrightarrow> \<not> starts_word word s) \<and> plain word s)"

fun tokenised :: "(char \<Rightarrow> bool) \<Rightarrow> piece list \<Rightarrow> bool" where
  "tokenised word [] = True"
| "tokenised word (Text s # ps) =
     (plain word s \<and> (s \<noteq> [] \<and> last s = CHR ''$'' \<longrightarrow> \<not> starts_word word (source_text ps))
      \<and> tokenised word ps)"
| "tokenised word (Token n # ps) =
     (n \<noteq> [] \<and> (\<forall>c\<in>set n. word c) \<and> \<not> starts_word word (source_text ps) \<and> tokenised word ps)"

text \<open>What the specification asks of the substitutor, piece by piece: a token whose name
  is a key becomes the value, any other piece stays, and a token without a key is warned
  about.\<close>

fun render_piece :: "(string \<rightharpoonup> string) \<Rightarrow> piece \<Rightarrow> string" where
  "render_piece pm (Text s) = s"
| "render_piece pm (Token n) = (case pm n of Some v \<Rightarrow> v | None \<Rightarrow> CHR ''$'' # n)"

fun piece_warning :: "(string \<rightharpoonup> string) \<Rightarrow> piece \<Rightarrow> string list" where
  "piece_warning pm (Text s) = []"
| "piece_warning pm (Token n) = (case pm n of Some v \<Rightarrow> [] | None \<Rightarrow> [warn_line n])"

text \<open>The scalars of a document that are not strings.\<close>

fun non_string_scalar :: "yval \<Rightarrow> bool" where
  "non_string_scalar YNull = True"
| "non_string_scalar (YBool b) = True"
| "non_string_scalar (YInt i) = True"
| "non_string_scalar (YScalar t s) = True"
| "non_string_scalar v = False"



section \<open>A deployment to run the program on\<close>

text \<open>
  \<^verbatim>\<open>Path(p).stem\<close> for a plain relative or absolute POSIX path: the last component, without
  its last suffix.
\<close>

definition posix_stem :: "string \<Rightarrow> string" where
  "posix_stem p =
     (let name = rev (takeWhile (\<lambda>c. c \<noteq> CHR ''/'') (rev p));
          ext = takeWhile (\<lambda>c. c \<noteq> CHR ''.'') (rev name)
      in if CHR ''.'' \<in> set name \<and> ext \<noteq> [] \<and> length ext + 1 < length name
         then take (length name - length ext - 1) name else name)"

text \<open>\<^verbatim>\<open>str()\<close> of a list of strings that need no escaping.\<close>

definition str_of_list :: "yval \<Rightarrow> string" where
  "str_of_list v =
     (case v of
        YList xs \<Rightarrow>
          ''['' @ str_join '', '' (map (\<lambda>x. case x of YStr s \<Rightarrow> [CHR 0x27] @ s @ [CHR 0x27] | _ \<Rightarrow> ''?'') xs)
            @ '']''
      | _ \<Rightarrow> ''?'')"

text \<open>
  The files of the deployment. \<^verbatim>\<open>app.yml\<close> with its template \<^verbatim>\<open>web.yml\<close> is the scenario
  of the specification in which both declare \<^verbatim>\<open>FOO\<close>; \<^verbatim>\<open>site.yml\<close> has a template that sets
  a parameter and refers to it and to an unknown one, and exposes two ports; the
  template of \<^verbatim>\<open>bad.yml\<close> is not YAML; the template of \<^verbatim>\<open>lost.yml\<close> is nowhere;
  \<^verbatim>\<open>ports.yml\<close> exposes a port written as a number; \<^verbatim>\<open>tag.yml\<close> uses \<^verbatim>\<open>{config}\<close> in an
  environment variable and in a label and leaves one variable empty.
\<close>

definition app_yml :: string where
  "app_yml = ''templates: [web.yml]'' @ [CHR 0x0A] @ ''env: {FOO: baz}''"

definition web_yml :: string where
  "web_yml = ''env: {FOO: bar}''"

definition site_yml :: string where
  "site_yml = ''templates: [vars.yml]''"

definition vars_yml :: string where
  "vars_yml = ''params: {home: /var/www}'' @ [CHR 0x0A] @ ''env: {ROOT: $home}''
     @ [CHR 0x0A] @ ''motd: at $home $missing_var'' @ [CHR 0x0A] @ ''expose: [80=8080, 443/tcp]''"

definition bad_yml :: string where
  "bad_yml = ''templates: [broken.yml]''"

definition broken_yml :: string where
  "broken_yml = ''env: [''"

definition lost_yml :: string where
  "lost_yml = ''templates: [web.yml, nowhere.yml]''"

definition ports_yml :: string where
  "ports_yml = ''expose: [80]''"

definition tag_yml :: string where
  "tag_yml = ''env:'' @ [CHR 0x0A] @ ''  HOST: web-{config}'' @ [CHR 0x0A] @ ''  EMPTY:''
     @ [CHR 0x0A] @ ''labels:'' @ [CHR 0x0A] @ ''  site: s-{config}-{config}''"

definition demo_files :: "(string \<times> string) list" where
  "demo_files =
     [(''app.yml'', app_yml), (''./web.yml'', web_yml),
      (''site.yml'', site_yml), (''./discourse_docker/vars.yml'', vars_yml),
      (''bad.yml'', bad_yml), (''./broken.yml'', broken_yml),
      (''lost.yml'', lost_yml), (''ports.yml'', ports_yml), (''tag.yml'', tag_yml)]"

text \<open>What \<^verbatim>\<open>yaml.safe_load\<close> answers on these texts and on the bootstrap fragment.\<close>

definition demo_yaml :: "(string \<times> yval) list" where
  "demo_yaml =
     [(''hack: true'', YMap [(YStr ''hack'', YBool True)]),
      (app_yml, YMap [(YStr ''templates'', YList [YStr ''web.yml'']),
                      (YStr ''env'', YMap [(YStr ''FOO'', YStr ''baz'')])]),
      (web_yml, YMap [(YStr ''env'', YMap [(YStr ''FOO'', YStr ''bar'')])]),
      (site_yml, YMap [(YStr ''templates'', YList [YStr ''vars.yml''])]),
      (vars_yml, YMap [(YStr ''params'', YMap [(YStr ''home'', YStr ''/var/www'')]),
                       (YStr ''env'', YMap [(YStr ''ROOT'', YStr ''$home'')]),
                       (YStr ''motd'', YStr ''at $home $missing_var''),
                       (YStr ''expose'', YList [YStr ''80=8080'', YStr ''443/tcp''])]),
      (bad_yml, YMap [(YStr ''templates'', YList [YStr ''broken.yml''])]),
      (lost_yml, YMap [(YStr ''templates'', YList [YStr ''web.yml'', YStr ''nowhere.yml''])]),
      (ports_yml, YMap [(YStr ''expose'', YList [YInt 80])]),
      (tag_yml, YMap [(YStr ''env'', YMap [(YStr ''HOST'', YStr ''web-{config}''),
                                          (YStr ''EMPTY'', YNull)]),
                      (YStr ''labels'', YMap [(YStr ''site'', YStr ''s-{config}-{config}'')])])]"

text \<open>The deployment: the POSIX file system above with the working directory \<^verbatim>\<open>/srv\<close>, an
  engine that does what it is asked, and the container of \<^verbatim>\<open>site\<close> running.\<close>

definition demo :: world where
  "demo =
     \<lparr>path_exists = (\<lambda>p. p \<in> set (map fst demo_files)),
      read_file = (\<lambda>p. case map_of demo_files p of
                          Some text \<Rightarrow> Inr text
                        | None \<Rightarrow> Inl (''No such file: '' @ p)),
      open_w = (\<lambda>p. None),
      safe_load = (\<lambda>text. case map_of demo_yaml text of
                             Some v \<Rightarrow> Inr v
                           | None \<Rightarrow> Inl ''could not parse''),
      dump = (\<lambda>v. ''{}'' @ [CHR 0x0A]),
      container_str = str_of_list,
      stem = posix_stem,
      abspath = (\<lambda>p. ''/srv/'' @ drop 2 p),
      check_output = (\<lambda>argv. if argv = ps_argv ''site'' then Inr (''4f2a81c03d9e'' @ [CHR 0x0A])
                               else Inr []),
      check_call = (\<lambda>argv. None)\<rparr>"

definition demo_roots :: "string list" where
  "demo_roots = [''.'', ''./discourse_docker'']"

section \<open>Sequencing\<close>

lemma and_then_Inl [simp]: "and_then (Inl e) f = Inl e"
  by (simp add: and_then_def)

lemma and_then_Inr [simp]: "and_then (Inr x) f = f x"
  by (simp add: and_then_def)

lemma sublist_single: "sublist [c] s \<longleftrightarrow> c \<in> set s"
  by (induction s) (simp_all add: sublist_Cons_right)

lemma contains_eq_str [simp]: "py_contains ''='' (YStr s) = Inr (CHR ''='' \<in> set s)"
  by (simp add: py_contains_def sublist_single)

section \<open>The substitutor is a single pass over the tokens\<close>

lemma substitute_Nil: "substitute word pm [] = ([], [])"
  by (subst substitute.simps) simp

lemma substitute_Cons:
  "substitute word pm (c # rest) =
     (if c = CHR ''$'' \<and> takeWhile word rest \<noteq> [] then
        (case pm (takeWhile word rest) of
           Some v \<Rightarrow> (v @ fst (substitute word pm (dropWhile word rest)),
                      snd (substitute word pm (dropWhile word rest)))
         | None \<Rightarrow> (CHR ''$'' # takeWhile word rest @ fst (substitute word pm (dropWhile word rest)),
                    warn_line (takeWhile word rest) # snd (substitute word pm (dropWhile word rest))))
      else (c # fst (substitute word pm rest), snd (substitute word pm rest)))"
  by (subst substitute.simps) (simp add: Let_def split: prod.splits option.splits)

lemma takeWhile_not_starts:
  "\<not> starts_word word s \<Longrightarrow> takeWhile word s = []"
  by (cases s) (simp_all add: starts_word_def)

lemma starts_word_append:
  "s \<noteq> [] \<Longrightarrow> starts_word word (s @ t) = starts_word word s"
  by (cases s) (simp_all add: starts_word_def)

lemma substitute_plain:
  "plain word s \<Longrightarrow> (s \<noteq> [] \<and> last s = CHR ''$'' \<longrightarrow> \<not> starts_word word t) \<Longrightarrow>
   substitute word pm (s @ t)
     = (s @ fst (substitute word pm t), snd (substitute word pm t))"
proof (induction s)
  case Nil
  show ?case by simp
next
  case (Cons c s)
  have no_name: "c = CHR ''$'' \<Longrightarrow> takeWhile word (s @ t) = []"
  proof -
    assume c: "c = CHR ''$''"
    show ?thesis
    proof (cases "s = []")
      case True
      with Cons.prems c show ?thesis by (simp add: takeWhile_not_starts)
    next
      case False
      with Cons.prems c have "\<not> starts_word word (s @ t)"
        by (simp add: starts_word_append)
      then show ?thesis by (rule takeWhile_not_starts)
    qed
  qed
  have "substitute word pm (s @ t)
     = (s @ fst (substitute word pm t), snd (substitute word pm t))"
    using Cons.prems by (intro Cons.IH) auto
  moreover have "\<not> (c = CHR ''$'' \<and> takeWhile word (s @ t) \<noteq> [])"
    using no_name by blast
  then have "substitute word pm (c # (s @ t))
     = (c # fst (substitute word pm (s @ t)), snd (substitute word pm (s @ t)))"
    by (subst substitute_Cons) (simp only: if_False)
  ultimately show ?case by simp
qed

lemma substitute_token:
  assumes "n \<noteq> []" and "\<forall>c\<in>set n. word c" and "\<not> starts_word word t"
  shows "substitute word pm (CHR ''$'' # n @ t)
     = (case pm n of
          Some v \<Rightarrow> (v @ fst (substitute word pm t), snd (substitute word pm t))
        | None \<Rightarrow> (CHR ''$'' # n @ fst (substitute word pm t),
                   warn_line n # snd (substitute word pm t)))"
proof -
  have tw: "takeWhile word (n @ t) = n"
    using assms(2,3) by (simp add: takeWhile_append2 takeWhile_not_starts)
  have "dropWhile word t = t"
    using assms(3) by (cases t) (simp_all add: starts_word_def)
  with assms(2) have dw: "dropWhile word (n @ t) = t"
    by (simp add: dropWhile_append2)
  have "substitute word pm (CHR ''$'' # (n @ t))
     = (case pm n of
          Some v \<Rightarrow> (v @ fst (substitute word pm t), snd (substitute word pm t))
        | None \<Rightarrow> (CHR ''$'' # n @ fst (substitute word pm t),
                   warn_line n # snd (substitute word pm t)))"
    by (subst substitute_Cons, simp only: tw dw) (simp add: assms(1))
  then show ?thesis by simp
qed

lemma substitute_tokenised:
  "tokenised word ps \<Longrightarrow>
   substitute word pm (source_text ps)
     = (concat (map (render_piece pm) ps), concat (map (piece_warning pm) ps))"
proof (induction ps)
  case Nil
  show ?case by (simp add: source_text_def substitute_Nil)
next
  case (Cons p ps)
  show ?case
  proof (cases p)
    case (Text s)
    with Cons show ?thesis
      using substitute_plain [of word s "source_text ps" pm]
      by (simp add: source_text_def)
  next
    case (Token n)
    with Cons show ?thesis
      using substitute_token [of n word "source_text ps" pm]
      by (simp add: source_text_def split: option.splits)
  qed
qed

lemma tokenisation_exists: "\<exists>ps. tokenised word ps \<and> source_text ps = s"
proof (induction "length s" arbitrary: s rule: less_induct)
  case less
  show ?case
  proof (cases s)
    case Nil
    have "tokenised word [] \<and> source_text [] = []"
      by (simp add: source_text_def)
    with Nil show ?thesis by blast
  next
    case (Cons c rest)
    show ?thesis
    proof (cases "c = CHR ''$'' \<and> takeWhile word rest \<noteq> []")
      case True
      have "length (dropWhile word rest) < length s"
        using Cons by (simp add: length_dropWhile_le less_Suc_eq_le)
      from less [OF this] obtain ps where ps: "tokenised word ps"
        "source_text ps = dropWhile word rest"
        by blast
      have "\<not> starts_word word (dropWhile word rest)"
        by (auto simp: starts_word_def dropWhile_eq_Cons_conv split: list.splits)
      with ps True have "tokenised word (Token (takeWhile word rest) # ps)"
        by (auto dest: set_takeWhileD)
      moreover have "source_text (Token (takeWhile word rest) # ps) = s"
        using ps(2) Cons True by (simp add: source_text_def)
      ultimately show ?thesis by blast
    next
      case False
      have "length rest < length s"
        using Cons by simp
      from less [OF this] obtain ps where ps: "tokenised word ps" "source_text ps = rest"
        by blast
      have "c = CHR ''$'' \<Longrightarrow> \<not> starts_word word rest"
        using False by (cases rest) (auto simp: starts_word_def)
      with ps have "tokenised word (Text [c] # ps)"
        by (simp add: starts_word_def)
      moreover have "source_text (Text [c] # ps) = s"
        using ps(2) Cons by (simp add: source_text_def)
      ultimately show ?thesis by blast
    qed
  qed
qed

text \<open>
  C6. Every text is a sequence of free text and \<open>$name\<close> tokens, and on such a sequence
  \<^verbatim>\<open>substitute\<close> gives each token whose name is a key of the parameter set its value,
  leaves every other piece as it is, and prints one warning, naming the token, for each
  token without a key, in order. A value goes to the output as it is: it is not scanned
  again.
\<close>

theorem substitute_single_pass:
  "(\<exists>ps. tokenised word ps \<and> source_text ps = s)
   \<and> (tokenised word ps \<longrightarrow>
        substitute word pm (source_text ps)
          = (concat (map (render_piece pm) ps), concat (map (piece_warning pm) ps)))"
  using tokenisation_exists [of word s] substitute_tokenised [of word ps pm] by blast

theorem substitute_single_pass_witness:
  "tokenised ascii_word
     [Text ''x '', Token ''a'', Token ''b'', Text '' $'', Token ''c_d'', Text '' $ e'']
   \<and> substitute ascii_word [''a'' \<mapsto> ''$b'', ''b'' \<mapsto> ''X''] ''x $a$b $$c_d $ e''
       = (''x $bX $$c_d $ e'', [''WARN: found parameter $c_d but could not substitute it!''])"
proof -
  let ?ps = "[Text ''x '', Token ''a'', Token ''b'', Text '' $'', Token ''c_d'', Text '' $ e'']"
  let ?pm = "[''a'' \<mapsto> ''$b'', ''b'' \<mapsto> ''X'']"
  have h: "tokenised ascii_word ?ps"
    by code_simp
  from substitute_single_pass [of ascii_word "[]" ?ps ?pm] h
  have "substitute ascii_word ?pm (source_text ?ps)
          = (concat (map (render_piece ?pm) ?ps), concat (map (piece_warning ?pm) ?ps))"
    by blast
  with h show ?thesis
    by (simp add: source_text_def warn_line_def)
qed

section \<open>The \<^verbatim>\<open>expose\<close> section\<close>




lemma expose_port_str_total: "\<exists>xs. expose_port w (YStr s) = Inr xs"
  by (simp add: expose_port_def split: prod.splits)

lemma expose_ports_strs:
  "\<exists>xss. length xss = length ss \<and> (\<forall>i<length ss. expose_port w (YStr (ss ! i)) = Inr (xss ! i))
     \<and> expose_ports w (map YStr ss) = Inr (concat xss)"
proof (induction ss)
  case Nil
  show ?case by simp
next
  case (Cons s ss)
  then obtain xss where xss: "length xss = length ss"
      "\<forall>i<length ss. expose_port w (YStr (ss ! i)) = Inr (xss ! i)"
      "expose_ports w (map YStr ss) = Inr (concat xss)"
    by blast
  obtain xs where xs: "expose_port w (YStr s) = Inr xs"
    using expose_port_str_total by blast
  have "\<forall>i<length (s # ss). expose_port w (YStr ((s # ss) ! i)) = Inr ((xs # xss) ! i)"
    using xs xss(2) by (auto simp: nth_Cons split: nat.splits)
  moreover have "expose_ports w (map YStr (s # ss)) = Inr (concat (xs # xss))"
    using xs xss(3) by simp
  ultimately show ?case
    using xss(1) by (intro exI[of _ "xs # xss"]) simp
qed

lemma contains_map [simp]:
  "py_contains k (YMap m) = Inr (map_of m (YStr k) \<noteq> None)"
  by (auto simp: py_contains_def map_of_eq_None_iff)

lemma getitem_map_Some [simp]:
  "map_of m (YStr k) = Some v \<Longrightarrow> py_getitem (YMap m) k = Inr v"
  by (simp add: py_getitem_def)



section \<open>A document that fails ends the run before the artifacts\<close>

lemma and_then_fails: "(\<And>x. \<exists>e. f x = Inl e) \<Longrightarrow> \<exists>e. and_then m f = Inl e"
  by (cases m) auto

lemma and_then_fails_now: "\<exists>e. m = Inl e \<Longrightarrow> \<exists>e. and_then m f = Inl e"
  by auto

lemma process_yml_expose_fails:
  assumes "\<And>a'. \<exists>e. step_expose w yml a' = Inl e"
  shows "\<exists>e. process_yml w cn yml a = Inl e"
  unfolding process_yml_def
  apply (rule and_then_fails)
  apply (rule and_then_fails)
  apply (rule and_then_fails)
  apply (rule and_then_fails)
  apply (rule and_then_fails_now)
  apply (rule assms)
  done

lemma process_parts_fails:
  assumes "part \<in> set parts" and "\<And>a'. \<exists>e. process_part w cn part a' = Inl e"
  shows "\<exists>e. process_parts w cn parts a = Inl e"
  using assms(1)
proof (induction parts arbitrary: a)
  case Nil
  then show ?case by simp
next
  case (Cons p ps)
  show ?case
  proof (cases "process_part w cn p a")
    case (Inl e)
    then show ?thesis by simp
  next
    case (Inr a1)
    with assms(2) [of a] have "p \<noteq> part" by auto
    with Cons.prems have "part \<in> set ps" by simp
    from Cons.IH [OF this, of a1] Inr show ?thesis by simp
  qed
qed

lemma io_bind_Inl [simp]: "io_bind (ev, Inl e) f = (ev, Inl e)"
  by (simp add: io_bind_def)

lemma io_bind_Inr [simp]: "io_bind (ev, Inr x) f = (ev @ fst (f x), snd (f x))"
  by (simp add: io_bind_def split: prod.splits)

lemma io_call_events: "fst (io_call w vs) = [] \<or> (\<exists>argv. fst (io_call w vs) = [Run argv])"
  by (simp add: io_call_def split: sum.splits)

lemma io_call_no_write [simp]: "Write p c \<notin> set (fst (io_call w vs))"
  using io_call_events [of w vs] by auto

lemma compose_fails:
  assumes "process_parts w name parts init_acc = Inl e"
  shows "(\<exists>e'. snd (compose_and_run w cmd name parts cid) = Inl e')
    \<and> (\<forall>p c. Write p c \<notin> set (fst (compose_and_run w cmd name parts cid)))"
proof -
  define m0 where "m0 = (if cmd = ''rebuild'' \<and> truthy cid
              then io_call w [YStr ''docker'', YStr ''stop'', cid] else ([], Inr ()))"
  have nw: "Write p c \<notin> set (fst m0)" for p c
    by (simp add: m0_def)
  obtain ev r where m0: "m0 = (ev, r)"
    by (cases m0)
  show ?thesis
  proof (cases r)
    case (Inl e0)
    with m0 nw show ?thesis
      unfolding compose_and_run_def m0_def [symmetric] by auto
  next
    case (Inr u)
    with m0 nw assms show ?thesis
      unfolding compose_and_run_def m0_def [symmetric] by auto
  qed
qed

lemma find_template_prints:
  "e \<in> set (fst (find_template w t roots)) \<Longrightarrow> \<exists>l. e = Print l"
proof (induction roots arbitrary: e)
  case Nil
  then show ?case by simp
next
  case (Cons r roots)
  then show ?case
    by (cases "find_template w t roots")
       (auto simp: io_print_def io_bind_def Let_def split: yval.splits if_splits sum.splits prod.splits)
qed

lemma load_templates_prints:
  "e \<in> set (fst (load_templates w roots ts)) \<Longrightarrow> \<exists>l. e = Print l"
proof (induction ts arbitrary: e)
  case Nil
  then show ?case by simp
next
  case (Cons t ts)
  obtain ev r where ft: "find_template w t roots = (ev, r)"
    by (cases "find_template w t roots")
  obtain ev' r' where lt: "load_templates w roots ts = (ev', r')"
    by (cases "load_templates w roots ts")
  have ev: "\<And>e. e \<in> set ev \<Longrightarrow> \<exists>l. e = Print l"
    using find_template_prints [of _ w t roots] ft by simp
  have ev': "\<And>e. e \<in> set ev' \<Longrightarrow> \<exists>l. e = Print l"
    using Cons.IH lt by simp
  from Cons.prems ft lt ev ev' show ?case
    by (cases r; cases r') (auto simp: io_print_def split: option.splits)
qed

lemma load_config_prints:
  "e \<in> set (fst (load_config w cf roots)) \<Longrightarrow> \<exists>l. e = Print l"
proof -
  assume e: "e \<in> set (fst (load_config w cf roots))"
  show ?thesis
  proof (cases "read_file w cf")
    case (Inl msg)
    with e show ?thesis by (simp add: load_config_def)
  next
    case data: (Inr config_data)
    show ?thesis
    proof (cases "safe_load w config_data")
      case (Inl msg)
      with e data show ?thesis by (simp add: load_config_def)
    next
      case yml: (Inr config_yml)
      show ?thesis
      proof (cases "py_get config_yml ''templates'' (YList [])")
        case (Inl err)
        with e data yml show ?thesis by (simp add: load_config_def)
      next
        case tv: (Inr templates)
        show ?thesis
        proof (cases "py_iter templates")
          case (Inl err)
          with e data yml tv show ?thesis by (simp add: load_config_def)
        next
          case ts: (Inr ts)
          obtain ev r where lt: "load_templates w roots ts = (ev, r)"
            by (cases "load_templates w roots ts")
          with e data yml tv ts have "e \<in> set ev"
            by (cases r) (simp_all add: load_config_def)
          with lt load_templates_prints [of e w roots ts] show ?thesis by simp
        qed
      qed
    qed
  qed
qed

lemma main_load_fails:
  assumes "load_config w (config_name args) (template_root args) = (ev, Inl e)"
  shows "main w args = (ev, Inl e)"
  using assms by (simp add: main_def Let_def)

lemma main_write_compose:
  assumes "load_config w (config_name args) (template_root args) = (ev, Inr parts)"
    and "Write p c \<in> set (fst (main w args))"
  shows "command args \<in> set [''build'', ''rebuild'', ''start'', ''start-cmd'']
    \<and> (\<exists>cid. Write p c \<in> set (fst (compose_and_run w (command args) (stem w (config_name args)) parts cid)))"
proof -
  have "Write p c \<notin> set ev"
    using load_config_prints [of "Write p c" w "config_name args" "template_root args"] assms(1)
    by auto
  with assms show ?thesis
    by (cases "check_output w (ps_argv (stem w (config_name args)))")
       (auto simp: main_def Let_def find_cid_def split: if_splits)
qed

lemma main_compose_snd:
  assumes "load_config w (config_name args) (template_root args) = (ev, Inr parts)"
    and "command args \<in> set [''build'', ''rebuild'', ''start'', ''start-cmd'']"
    and "\<And>cid. \<exists>e. snd (compose_and_run w (command args) (stem w (config_name args)) parts cid) = Inl e"
  shows "\<exists>e. snd (main w args) = Inl e"
proof (cases "check_output w (ps_argv (stem w (config_name args)))")
  case (Inl k)
  with assms(1) show ?thesis
    by (simp add: main_def Let_def find_cid_def)
next
  case (Inr out)
  with assms(1,2) assms(3) [of "YStr (strip out)"] show ?thesis
    by (simp add: main_def Let_def find_cid_def)
qed

lemma process_part_parse_fails:
  "safe_load w part = Inl msg \<Longrightarrow> \<exists>e. process_part w cn part a = Inl e"
  by (simp add: process_part_def)

text \<open>
  C9. An artifact is written only when every document of the sequence has loaded; and
  when some document of the sequence does not load, a composing run ends in an error and
  writes no artifact.
\<close>

theorem parse_failure_writes_nothing:
  "(Write p c \<in> set (fst (main w args)) \<longrightarrow>
      (\<exists>ev parts. load_config w (config_name args) (template_root args) = (ev, Inr parts)
         \<and> (\<forall>part\<in>set parts. \<exists>yml. safe_load w part = Inr yml)))
   \<and> (load_config w (config_name args) (template_root args) = (ev, Inr parts)
        \<and> part \<in> set parts \<and> safe_load w part = Inl msg
        \<and> command args \<in> set [''build'', ''rebuild'', ''start'', ''start-cmd''] \<longrightarrow>
      (\<exists>e. snd (main w args) = Inl e) \<and> (\<forall>p c. Write p c \<notin> set (fst (main w args))))"
proof -
  have no_write: "Write p c \<notin> set (fst (main w args))"
    if lc: "load_config w (config_name args) (template_root args) = (ev, Inr parts)"
      and part: "part \<in> set parts" and bad: "safe_load w part = Inl msg"
    for ev parts part msg p c
  proof
    assume wr: "Write p c \<in> set (fst (main w args))"
    from main_write_compose [OF lc wr] obtain cid where
      cw: "Write p c \<in> set (fst (compose_and_run w (command args) (stem w (config_name args)) parts cid))"
      by blast
    from process_parts_fails [OF part, of w "stem w (config_name args)" init_acc]
      process_part_parse_fails [OF bad]
    obtain e where "process_parts w (stem w (config_name args)) parts init_acc = Inl e"
      by blast
    from compose_fails [OF this] cw show False by blast
  qed
  have first: "\<exists>ev parts. load_config w (config_name args) (template_root args) = (ev, Inr parts)
         \<and> (\<forall>part\<in>set parts. \<exists>yml. safe_load w part = Inr yml)"
    if wr: "Write p c \<in> set (fst (main w args))"
  proof -
    obtain ev r where lc: "load_config w (config_name args) (template_root args) = (ev, r)"
      by (cases "load_config w (config_name args) (template_root args)")
    show ?thesis
    proof (cases r)
      case (Inl e)
      with lc main_load_fails [of w args ev e] wr
        load_config_prints [of "Write p c" w "config_name args" "template_root args"]
      show ?thesis by auto
    next
      case (Inr parts)
      have "\<exists>yml. safe_load w part = Inr yml" if "part \<in> set parts" for part
      proof (cases "safe_load w part")
        case (Inl msg)
        with no_write [of ev parts part msg p c] lc Inr that wr show ?thesis by simp
      next
        case (Inr yml)
        then show ?thesis by blast
      qed
      with lc Inr show ?thesis by blast
    qed
  qed
  have second: "(\<exists>e. snd (main w args) = Inl e) \<and> (\<forall>p c. Write p c \<notin> set (fst (main w args)))"
    if lc: "load_config w (config_name args) (template_root args) = (ev, Inr parts)"
      and part: "part \<in> set parts" and bad: "safe_load w part = Inl msg"
      and cmd: "command args \<in> set [''build'', ''rebuild'', ''start'', ''start-cmd'']"
  proof -
    from process_parts_fails [OF part, of w "stem w (config_name args)" init_acc]
      process_part_parse_fails [OF bad]
    obtain e where "process_parts w (stem w (config_name args)) parts init_acc = Inl e"
      by blast
    from compose_fails [OF this] main_compose_snd [OF lc cmd]
    have "\<exists>e. snd (main w args) = Inl e" by blast
    with no_write [OF lc part bad] show ?thesis by blast
  qed
  from first second show ?thesis by blast
qed

theorem parse_failure_writes_nothing_witness:
  "Write ''dkr/init'' (str_join MAGIC_SEPARATOR [''hack: true'', web_yml, app_yml])
     \<in> set (fst (main demo \<lparr>command = ''start'', config_name = ''app.yml'', template_root = demo_roots\<rparr>))
   \<and> (\<exists>yml. safe_load demo ''hack: true'' = Inr yml)
   \<and> (\<exists>yml. safe_load demo web_yml = Inr yml)
   \<and> (\<exists>yml. safe_load demo app_yml = Inr yml)
   \<and> load_config demo ''bad.yml'' demo_roots = ([], Inr [''hack: true'', broken_yml, bad_yml])
   \<and> broken_yml \<in> set [''hack: true'', broken_yml, bad_yml]
   \<and> safe_load demo broken_yml = Inl ''could not parse''
   \<and> (\<exists>e. snd (main demo \<lparr>command = ''build'', config_name = ''bad.yml'', template_root = demo_roots\<rparr>) = Inl e)
   \<and> (\<forall>p c. Write p c \<notin> set (fst (main demo \<lparr>command = ''build'', config_name = ''bad.yml'', template_root = demo_roots\<rparr>)))"
proof -
  let ?good = "\<lparr>command = ''start'', config_name = ''app.yml'', template_root = demo_roots\<rparr>"
  let ?bad = "\<lparr>command = ''build'', config_name = ''bad.yml'', template_root = demo_roots\<rparr>"
  have wr: "Write ''dkr/init'' (str_join MAGIC_SEPARATOR [''hack: true'', web_yml, app_yml])
     \<in> set (fst (main demo ?good))"
    by code_simp
  have lg: "load_config demo ''app.yml'' demo_roots = ([], Inr [''hack: true'', web_yml, app_yml])"
    by code_simp
  have lb: "load_config demo ''bad.yml'' demo_roots = ([], Inr [''hack: true'', broken_yml, bad_yml])"
    by code_simp
  have bad: "safe_load demo broken_yml = Inl ''could not parse''"
    by code_simp
  from parse_failure_writes_nothing
         [of "''dkr/init''" "str_join MAGIC_SEPARATOR [''hack: true'', web_yml, app_yml]" demo ?good]
       wr lg
  have good: "\<forall>part\<in>set [''hack: true'', web_yml, app_yml]. \<exists>yml. safe_load demo part = Inr yml"
    by simp
  from parse_failure_writes_nothing
         [of _ _ demo ?bad "[]" "[''hack: true'', broken_yml, bad_yml]" broken_yml "''could not parse''"]
       lb bad
  have "(\<exists>e. snd (main demo ?bad) = Inl e) \<and> (\<forall>p c. Write p c \<notin> set (fst (main demo ?bad)))"
    by simp
  with wr good lb bad show ?thesis
    by simp
qed

section \<open>Entries of \<^verbatim>\<open>expose\<close> that are not strings\<close>

lemma expose_port_scalar:
  "non_string_scalar port \<Longrightarrow> expose_port w port = Inl (Raised TypeError)"
  by (cases port) (simp_all add: expose_port_def py_contains_def)

lemma expose_ports_append:
  "expose_ports w (ps @ qs) =
     and_then (expose_ports w ps) (\<lambda>xs. and_then (expose_ports w qs) (\<lambda>ys. Inr (xs @ ys)))"
proof (induction ps)
  case Nil
  show ?case by (cases "expose_ports w qs") simp_all
next
  case (Cons p ps)
  show ?case
  proof (cases "expose_port w p")
    case (Inl e)
    then show ?thesis by simp
  next
    case (Inr xs)
    then show ?thesis
      using Cons.IH
      by (cases "expose_ports w ps"; cases "expose_ports w qs") simp_all
  qed
qed

lemma expose_ports_strs_ok: "\<exists>xs. expose_ports w (map YStr ss) = Inr xs"
  using expose_ports_strs [of ss w] by blast

lemma expose_ports_scalar:
  assumes "non_string_scalar port"
  shows "expose_ports w (map YStr ss @ port # rest) = Inl (Raised TypeError)"
proof -
  obtain xs where "expose_ports w (map YStr ss) = Inr xs"
    using expose_ports_strs_ok by blast
  then show ?thesis
    using assms by (simp add: expose_ports_append expose_port_scalar)
qed

text \<open>
  C10. The test \<^verbatim>\<open>"=" in port\<close> raises a type error on an entry that is a scalar and not
  a string, such as the number of \<^verbatim>\<open>expose: [80]\<close>: the \<^verbatim>\<open>expose\<close> step and with it the
  document and the run end in an error. When all entries are strings the step succeeds.
\<close>

theorem expose_needs_strings:
  "(non_string_scalar port \<longrightarrow> expose_port w port = Inl (Raised TypeError))
   \<and> (non_string_scalar port
        \<and> map_of m (YStr ''expose'') = Some (YList (map YStr ss @ port # rest)) \<longrightarrow>
          step_expose w (YMap m) a = Inl (Raised TypeError)
          \<and> (\<exists>e. process_yml w cn (YMap m) a = Inl e))
   \<and> (non_string_scalar port
        \<and> map_of m (YStr ''expose'') = Some (YList (map YStr ss @ port # rest))
        \<and> load_config w (config_name args) (template_root args) = (ev, Inr parts)
        \<and> part \<in> set parts \<and> safe_load w part = Inr (YMap m)
        \<and> command args \<in> set [''build'', ''rebuild'', ''start'', ''start-cmd''] \<longrightarrow>
          (\<exists>e. snd (main w args) = Inl e))
   \<and> (map_of m (YStr ''expose'') = Some (YList (map YStr ss)) \<longrightarrow>
          (\<exists>xs. step_expose w (YMap m) a = Inr (a\<lparr>dkrargs := dkrargs a @ xs\<rparr>)))"
proof -
  have step: "step_expose w (YMap m) a' = Inl (Raised TypeError)"
    if "non_string_scalar port"
      and "map_of m (YStr ''expose'') = Some (YList (map YStr ss @ port # rest))" for a'
    using that by (simp add: step_expose_def py_iter_def expose_ports_scalar)
  have yml: "\<exists>e. process_yml w cn (YMap m) a' = Inl e"
    if "non_string_scalar port"
      and "map_of m (YStr ''expose'') = Some (YList (map YStr ss @ port # rest))" for a' cn
    using step [OF that] by (intro process_yml_expose_fails) auto
  have run: "\<exists>e. snd (main w args) = Inl e"
    if ns: "non_string_scalar port"
      and ex: "map_of m (YStr ''expose'') = Some (YList (map YStr ss @ port # rest))"
      and lc: "load_config w (config_name args) (template_root args) = (ev, Inr parts)"
      and part: "part \<in> set parts" and ld: "safe_load w part = Inr (YMap m)"
      and cmd: "command args \<in> set [''build'', ''rebuild'', ''start'', ''start-cmd'']"
  proof -
    have "\<exists>e. process_part w (stem w (config_name args)) part a' = Inl e" for a'
      using yml [OF ns ex] ld by (simp add: process_part_def)
    from process_parts_fails [OF part this, of init_acc]
    obtain e where "process_parts w (stem w (config_name args)) parts init_acc = Inl e"
      by blast
    from compose_fails [OF this] main_compose_snd [OF lc cmd] show ?thesis
      by blast
  qed
  have ok: "\<exists>xs. step_expose w (YMap m) a = Inr (a\<lparr>dkrargs := dkrargs a @ xs\<rparr>)"
    if "map_of m (YStr ''expose'') = Some (YList (map YStr ss))"
  proof -
    obtain xs where "expose_ports w (map YStr ss) = Inr xs"
      using expose_ports_strs_ok by blast
    with that have "step_expose w (YMap m) a = Inr (a\<lparr>dkrargs := dkrargs a @ xs\<rparr>)"
      by (simp add: step_expose_def py_iter_def)
    then show ?thesis by blast
  qed
  from expose_port_scalar step yml run ok show ?thesis
    by blast
qed

theorem expose_needs_strings_witness:
  "non_string_scalar (YInt 80)
   \<and> expose_port demo (YInt 80) = Inl (Raised TypeError)
   \<and> load_config demo ''ports.yml'' demo_roots = ([], Inr [''hack: true'', ports_yml])
   \<and> safe_load demo ports_yml = Inr (YMap [(YStr ''expose'', YList [YInt 80])])
   \<and> step_expose demo (YMap [(YStr ''expose'', YList [YInt 80])]) init_acc = Inl (Raised TypeError)
   \<and> (\<exists>e. snd (main demo \<lparr>command = ''start'', config_name = ''ports.yml'', template_root = demo_roots\<rparr>) = Inl e)
   \<and> (\<exists>xs. step_expose demo (YMap [(YStr ''expose'', YList [YStr ''80=8080'', YStr ''443/tcp''])]) init_acc
          = Inr (init_acc\<lparr>dkrargs := dkrargs init_acc @ xs\<rparr>))"
proof -
  let ?m = "[(YStr ''expose'', YList [YInt 80])]"
  let ?args = "\<lparr>command = ''start'', config_name = ''ports.yml'', template_root = demo_roots\<rparr>"
  let ?m' = "[(YStr ''expose'', YList [YStr ''80=8080'', YStr ''443/tcp''])]"
  have ns: "non_string_scalar (YInt 80)"
    by simp
  have ex: "map_of ?m (YStr ''expose'') = Some (YList (map YStr [] @ YInt 80 # []))"
    by simp
  have lc: "load_config demo (config_name ?args) (template_root ?args) = ([], Inr [''hack: true'', ports_yml])"
    by code_simp
  have ld: "safe_load demo ports_yml = Inr (YMap ?m)"
    by code_simp
  have ex': "map_of ?m' (YStr ''expose'') = Some (YList (map YStr [''80=8080'', ''443/tcp'']))"
    by simp
  note bad = expose_needs_strings
    [of "YInt 80" demo ?m "[]" "[]" init_acc "''ports''" ?args "[]" "[''hack: true'', ports_yml]" ports_yml]
  note good = expose_needs_strings
    [of "YInt 80" demo ?m' "[''80=8080'', ''443/tcp'']" "[]" init_acc "''ports''" ?args "[]" "[]" ports_yml]
  from bad ns have c1: "expose_port demo (YInt 80) = Inl (Raised TypeError)"
    by blast
  from bad ns ex have c2: "step_expose demo (YMap ?m) init_acc = Inl (Raised TypeError)"
    by blast
  from bad ns ex lc ld have c3: "\<exists>e. snd (main demo ?args) = Inl e"
    by simp
  from good ex' have c4: "\<exists>xs. step_expose demo (YMap ?m') init_acc
          = Inr (init_acc\<lparr>dkrargs := dkrargs init_acc @ xs\<rparr>)"
    by blast
  from ns c1 lc ld c2 c3 c4 show ?thesis
    by simp
qed

section \<open>The \<^verbatim>\<open>env\<close> and \<^verbatim>\<open>labels\<close> sections\<close>

lemma str_replace_Nil: "old \<noteq> [] \<Longrightarrow> str_replace old new [] = []"
  by (subst str_replace.simps) simp


lemma str_replace_skip:
  "old \<noteq> [] \<Longrightarrow> \<not> prefix old (c # s) \<Longrightarrow>
   str_replace old new (c # s) = c # str_replace old new s"
  by (subst str_replace.simps) simp

lemma str_replace_absent:
  "old \<noteq> [] \<Longrightarrow> \<not> sublist old s \<Longrightarrow> str_replace old new s = s"
proof (induction s)
  case Nil
  then show ?case by (simp add: str_replace_Nil)
next
  case (Cons c s)
  then have "\<not> prefix old (c # s)" and "\<not> sublist old s"
    by (simp_all add: sublist_Cons_right)
  with Cons show ?case
    by (simp add: str_replace_skip)
qed





lemma config_value_str: "config_value w cn (YStr s) = str_replace ''{config}'' cn s"
  by (simp add: config_value_def truthy_def py_str_def)




section \<open>The loader follows the template search of the specification\<close>








section \<open>Runs of the driver\<close>

lemma str_args_strs [simp]: "str_args (map YStr xs) = Inr xs"
  by (induction xs) simp_all


lemma str_args_append:
  "str_args (xs @ ys) = and_then (str_args xs) (\<lambda>a. and_then (str_args ys) (\<lambda>b. Inr (a @ b)))"
  by (induction xs rule: str_args.induct) (auto simp: and_then_def split: sum.splits)


lemma str_args_start_cmd_argv:
  "str_args (start_cmd_argv name dk)
     = (case str_args dk of
          Inl e \<Rightarrow> Inl e
        | Inr ss \<Rightarrow> Inr ([''docker'', ''run'', ''--rm'', ''-i'', ''--name'', name] @ ss
                         @ [image_tag name]))"
  by (simp add: start_cmd_argv_def str_args_append split: sum.splits)



lemma main_no_cid:
  assumes "load_config w (config_name args) (template_root args) = (ev, Inr parts)"
    and "check_output w (ps_argv (stem w (config_name args))) = Inl k"
  shows "main w args = (ev @ [Run (ps_argv (stem w (config_name args)))], Inl (Raised k))"
  using assms by (simp add: main_def Let_def find_cid_def)





section \<open>What \<^verbatim>\<open>start-cmd\<close> prints\<close>









section \<open>A key declared by a template and by the config\<close>

lemma process_parts_three:
  "process_parts w cn [b, t, c] a
     = and_then (process_part w cn b a) (\<lambda>a.
       and_then (process_part w cn t a) (\<lambda>a. process_part w cn c a))"
  by (cases "process_part w cn b a") (simp_all add: and_then_def split: sum.splits)

lemma config_value_plain:
  "\<not> sublist ''{config}'' s \<Longrightarrow> config_value w cn (YStr s) = s"
  by (simp add: config_value_str str_replace_absent)

text \<open>
  C2, as the code has it. In the scenario the template's \<^verbatim>\<open>FOO=bar\<close> and the config's
  \<^verbatim>\<open>FOO=baz\<close> are both in the runtime specification, the config's pair behind the
  template's: a later document adds its entry, it does not take the earlier one away.
\<close>

theorem env_of_config_follows_template:
  assumes "safe_load w b = Inr (YMap [(YStr ''hack'', YBool True)])"
    and "safe_load w t = Inr (YMap [(YStr ''env'', YMap [(YStr ''FOO'', YStr ''bar'')])])"
    and "safe_load w c = Inr (YMap [(YStr ''templates'', YList [YStr ''web.yml'']),
                                    (YStr ''env'', YMap [(YStr ''FOO'', YStr ''baz'')])])"
  shows "map_sum id dkrargs (process_parts w cn [b, t, c] init_acc)
           = Inr (map YStr [''-e'', ''FOO=bar'', ''-e'', ''FOO=baz''])"
proof -
  have bar: "config_value w cn (YStr ''bar'') = ''bar''"
    and baz: "config_value w cn (YStr ''baz'') = ''baz''"
    by (rule config_value_plain, code_simp)+
  have pb: "process_part w cn b init_acc = Inr init_acc"
    using assms(1)
    by (simp add: process_part_def process_yml_def step_params_def step_build_def step_env_def
        step_labels_def step_section_def step_expose_def step_volumes_def step_docker_args_def
        step_base_image_def)
  have pt: "process_part w cn t init_acc
      = Inr (init_acc\<lparr>dkrargs := map YStr [''-e'', ''FOO=bar'']\<rparr>)"
    using assms(2) bar
    by (simp add: process_part_def process_yml_def step_params_def step_build_def step_env_def
        step_labels_def step_section_def step_expose_def step_volumes_def step_docker_args_def
        step_base_image_def py_items_def flag_pairs_def py_str_def init_acc_def)
  have pc: "process_part w cn c (init_acc\<lparr>dkrargs := map YStr [''-e'', ''FOO=bar'']\<rparr>)
      = Inr (init_acc\<lparr>dkrargs := map YStr [''-e'', ''FOO=bar'', ''-e'', ''FOO=baz'']\<rparr>)"
    using assms(3) baz
    by (simp add: process_part_def process_yml_def step_params_def step_build_def step_env_def
        step_labels_def step_section_def step_expose_def step_volumes_def step_docker_args_def
        step_base_image_def py_items_def flag_pairs_def py_str_def init_acc_def)
  from pb pt pc show ?thesis
    by (simp add: process_parts_three)
qed

theorem env_of_config_follows_template_witness:
  "load_config demo ''app.yml'' demo_roots = ([], Inr [''hack: true'', web_yml, app_yml])
   \<and> safe_load demo ''hack: true'' = Inr (YMap [(YStr ''hack'', YBool True)])
   \<and> safe_load demo web_yml = Inr (YMap [(YStr ''env'', YMap [(YStr ''FOO'', YStr ''bar'')])])
   \<and> safe_load demo app_yml = Inr (YMap [(YStr ''templates'', YList [YStr ''web.yml'']),
                                          (YStr ''env'', YMap [(YStr ''FOO'', YStr ''baz'')])])
   \<and> map_sum id dkrargs (process_parts demo (stem demo ''app.yml'') [''hack: true'', web_yml, app_yml] init_acc)
       = Inr (map YStr [''-e'', ''FOO=bar'', ''-e'', ''FOO=baz''])"
proof -
  have lc: "load_config demo ''app.yml'' demo_roots = ([], Inr [''hack: true'', web_yml, app_yml])"
    and b: "safe_load demo ''hack: true'' = Inr (YMap [(YStr ''hack'', YBool True)])"
    and t: "safe_load demo web_yml = Inr (YMap [(YStr ''env'', YMap [(YStr ''FOO'', YStr ''bar'')])])"
    and c: "safe_load demo app_yml = Inr (YMap [(YStr ''templates'', YList [YStr ''web.yml'']),
                                          (YStr ''env'', YMap [(YStr ''FOO'', YStr ''baz'')])])"
    by code_simp+
  from env_of_config_follows_template [OF b t c, of "stem demo ''app.yml''"] lc b t c
  show ?thesis
    by simp
qed

text \<open>
  C2, as the specification has it, fails: in the scenario the runtime specification
  holds the pair \<^verbatim>\<open>-e FOO=bar\<close>, and \<^verbatim>\<open>start\<close> hands it to the engine.
\<close>

theorem template_env_pair_stays:
  "map_sum id dkrargs (process_parts demo ''app'' [''hack: true'', web_yml, app_yml] init_acc)
     = Inr [YStr ''-e'', YStr ''FOO=bar'', YStr ''-e'', YStr ''FOO=baz'']
   \<and> last (fst (main demo \<lparr>command = ''start'', config_name = ''app.yml'', template_root = demo_roots\<rparr>))
     = Run [''docker'', ''run'', ''--rm'', ''-d'', ''-i'', ''--name'', ''app'',
            ''-e'', ''FOO=bar'', ''-e'', ''FOO=baz'', ''local_discourse/app'']"
  by code_simp

section \<open>Composition writes the documents as they are\<close>

lemma find_template_error_lines:
  "Print l \<in> set (fst (find_template w t roots)) \<Longrightarrow> \<exists>rest. l = ''Error'' @ rest"
proof (induction roots)
  case Nil
  then show ?case by simp
next
  case (Cons r roots)
  then show ?case
    by (cases "find_template w t roots")
       (auto simp: io_print_def io_bind_def Let_def template_read_error_def
             split: yval.splits if_splits sum.splits prod.splits)
qed

lemma load_templates_error_lines:
  "Print l \<in> set (fst (load_templates w roots ts)) \<Longrightarrow> \<exists>rest. l = ''Error'' @ rest"
proof (induction ts)
  case Nil
  then show ?case by simp
next
  case (Cons t ts)
  obtain ev r where ft: "find_template w t roots = (ev, r)"
    by (cases "find_template w t roots")
  obtain ev' r' where lt: "load_templates w roots ts = (ev', r')"
    by (cases "load_templates w roots ts")
  have ev: "Print l \<in> set ev \<Longrightarrow> \<exists>rest. l = ''Error'' @ rest"
    using find_template_error_lines [of l w t roots] ft by simp
  have ev': "Print l \<in> set ev' \<Longrightarrow> \<exists>rest. l = ''Error'' @ rest"
    using Cons.IH lt by simp
  from Cons.prems ft lt ev ev' show ?case
    by (cases r; cases r') (auto simp: io_print_def template_not_found_def split: option.splits)
qed

lemma load_config_error_lines:
  assumes "Print l \<in> set (fst (load_config w cf roots))"
  shows "\<exists>rest. l = ''Error'' @ rest"
proof (cases "read_file w cf")
  case (Inl msg)
  with assms show ?thesis by (simp add: load_config_def)
next
  case data: (Inr config_data)
  show ?thesis
  proof (cases "safe_load w config_data")
    case (Inl msg)
    with assms data show ?thesis by (simp add: load_config_def)
  next
    case yml: (Inr config_yml)
    show ?thesis
    proof (cases "py_get config_yml ''templates'' (YList [])")
      case (Inl err)
      with assms data yml show ?thesis by (simp add: load_config_def)
    next
      case tv: (Inr templates)
      show ?thesis
      proof (cases "py_iter templates")
        case (Inl err)
        with assms data yml tv show ?thesis by (simp add: load_config_def)
      next
        case ts: (Inr ts)
        obtain ev r where lt: "load_templates w roots ts = (ev, r)"
          by (cases "load_templates w roots ts")
        with assms data yml tv ts have "Print l \<in> set ev"
          by (cases r) (simp_all add: load_config_def)
        with lt load_templates_error_lines [of l w roots ts] show ?thesis by simp
      qed
    qed
  qed
qed

lemma warn_line_not_error: "warn_line n \<noteq> ''Error'' @ rest"
  by (simp add: warn_line_def)

lemma str_join_Cons:
  "str_join sep (x # xs) = x @ (if xs = [] then [] else sep @ str_join sep xs)"
  by (cases xs) simp_all

lemma warn_line_not_docker: "warn_line n \<noteq> str_join sep (''docker'' # argv)"
  by (simp add: warn_line_def str_join_Cons)

lemma io_call_event: "e \<in> set (fst (io_call w vs)) \<Longrightarrow> \<exists>argv. e = Run argv"
  using io_call_events [of w vs] by auto

text \<open>The events of a composing run: subprocesses, the two artifacts, and the line of
  \<^verbatim>\<open>start-cmd\<close>.\<close>

lemma compose_events:
  assumes "e \<in> set (fst (compose_and_run w cmd name parts cid))"
  shows "(\<exists>argv. e = Run argv)
    \<or> e = Write (path_join DKR_PATH ''init'') (str_join MAGIC_SEPARATOR parts)
    \<or> (\<exists>c. e = Write (path_join DKR_PATH ''build'') c)
    \<or> (\<exists>argv. e = Print (str_join '' '' (''docker'' # argv)))"
proof -
  define m0 where "m0 = (if cmd = ''rebuild'' \<and> truthy cid
              then io_call w [YStr ''docker'', YStr ''stop'', cid] else ([], Inr ()))"
  obtain ev0 r0 where m0: "m0 = (ev0, r0)"
    by (cases m0)
  have ev0: "e \<in> set ev0 \<Longrightarrow> \<exists>argv. e = Run argv"
    using io_call_event [of e w "[YStr ''docker'', YStr ''stop'', cid]"] m0
    by (auto simp: m0_def split: if_splits)
  define fin where "fin = (\<lambda>a :: acc. if cmd \<in> set [''start'', ''rebuild''] then
         (if cmd = ''rebuild'' \<and> cid = YNull then ([], Inr ())
          else io_call w (run_argv name (dkrargs a)))
       else if cmd = ''start-cmd'' then
         io_bind ([], str_args (start_cmd_argv name (dkrargs a)))
           (\<lambda>argv. io_print (str_join '' '' argv))
       else ([], Inr ()))"
  define bld where "bld = (\<lambda>a :: acc. if cmd \<in> set [''build'', ''rebuild'']
              then io_call w (build_argv w name (base_image a)) else ([], Inr ()))"
  have C: "compose_and_run w cmd name parts cid = io_bind m0 (\<lambda>_.
     io_bind ([], process_parts w name parts init_acc) (\<lambda>a.
     io_bind (io_write w (path_join DKR_PATH ''init'') (str_join MAGIC_SEPARATOR parts)) (\<lambda>_.
     io_bind (io_write w (path_join DKR_PATH ''build'')
                (str_join MAGIC_SEPARATOR (build_parts a))) (\<lambda>_.
     io_bind (bld a) (\<lambda>_. fin a)))))"
    by (simp add: compose_and_run_def m0_def fin_def bld_def)
  have fin: "e \<in> set (fst (fin a)) \<Longrightarrow>
      (\<exists>argv. e = Run argv) \<or> (\<exists>argv. e = Print (str_join '' '' (''docker'' # argv)))" for a :: acc
  proof (cases "cmd = ''start-cmd''")
    case False
    assume "e \<in> set (fst (fin a))"
    with False show ?thesis
      using io_call_event [of e w "run_argv name (dkrargs a)"]
      by (auto simp: fin_def split: if_splits)
  next
    case True
    assume e: "e \<in> set (fst (fin a))"
    show ?thesis
    proof (cases "str_args (dkrargs a)")
      case (Inl err)
      with True e show ?thesis
        by (simp add: fin_def str_args_start_cmd_argv)
    next
      case (Inr ss)
      with True e
      have "e = Print (str_join '' '' (''docker''
                # ([''run'', ''--rm'', ''-i'', ''--name'', name] @ ss @ [image_tag name])))"
        by (simp add: fin_def str_args_start_cmd_argv io_print_def del: str_join.simps)
      then show ?thesis by blast
    qed
  qed
  have bld: "e \<in> set (fst (bld a)) \<Longrightarrow> \<exists>argv. e = Run argv" for a :: acc
    using io_call_event [of e w "build_argv w name (base_image a)"]
    by (auto simp: bld_def split: if_splits)
  show ?thesis
  proof (cases r0)
    case (Inl err)
    with C m0 ev0 assms show ?thesis by simp
  next
    case r0: (Inr u)
    show ?thesis
    proof (cases "process_parts w name parts init_acc")
      case (Inl err)
      with C m0 r0 ev0 assms show ?thesis by simp
    next
      case a: (Inr a)
      obtain evb rb where b: "bld a = (evb, rb)"
        by (cases "bld a")
      obtain evf rf where f: "fin a = (evf, rf)"
        by (cases "fin a")
      from C m0 r0 a b f assms
      have "e \<in> set ev0
        \<or> e = Write (path_join DKR_PATH ''init'') (str_join MAGIC_SEPARATOR parts)
        \<or> e = Write (path_join DKR_PATH ''build'') (str_join MAGIC_SEPARATOR (build_parts a))
        \<or> e \<in> set evb \<or> e \<in> set evf"
        by (cases rb) (auto simp: io_write_def split: option.splits)
      with ev0 bld [of a] fin [of a] b f show ?thesis
        by auto
    qed
  qed
qed

lemma main_events:
  assumes "e \<in> set (fst (main w args))"
  shows "e \<in> set (fst (load_config w (config_name args) (template_root args)))
    \<or> (\<exists>argv. e = Run argv)
    \<or> (\<exists>ev parts cid. load_config w (config_name args) (template_root args) = (ev, Inr parts)
          \<and> e \<in> set (fst (compose_and_run w (command args) (stem w (config_name args)) parts cid)))"
proof -
  obtain ev r where lc: "load_config w (config_name args) (template_root args) = (ev, r)"
    by (cases "load_config w (config_name args) (template_root args)")
  show ?thesis
  proof (cases r)
    case (Inl err)
    with lc main_load_fails [of w args ev err] assms show ?thesis by simp
  next
    case (Inr parts)
    show ?thesis
    proof (cases "check_output w (ps_argv (stem w (config_name args)))")
      case (Inl k)
      with main_no_cid [of w args ev parts k] lc Inr assms show ?thesis by auto
    next
      case out: (Inr out)
      with lc Inr assms show ?thesis
        using io_call_event [of e w]
        by (auto simp: main_def Let_def find_cid_def split: if_splits)
    qed
  qed
qed

lemma init_not_build: "path_join DKR_PATH ''init'' \<noteq> path_join DKR_PATH ''build''"
  by (simp add: path_join_def DKR_PATH_def)

text \<open>
  C1, as the code has it. Composition does not touch the \<open>$\<close> tokens: the \<^verbatim>\<open>init\<close> artifact
  is the raw documents joined by the separator, whatever the parameter set holds, and no
  run prints the warning of the substitutor.
\<close>

theorem composition_keeps_tokens:
  "(load_config w (config_name args) (template_root args) = (ev, Inr parts)
      \<and> Write (path_join DKR_PATH ''init'') c \<in> set (fst (main w args)) \<longrightarrow>
        c = str_join MAGIC_SEPARATOR parts)
   \<and> Print (warn_line n) \<notin> set (fst (main w args))"
proof -
  have first: "c = str_join MAGIC_SEPARATOR parts"
    if lc: "load_config w (config_name args) (template_root args) = (ev, Inr parts)"
      and wr: "Write (path_join DKR_PATH ''init'') c \<in> set (fst (main w args))"
  proof -
    have "Write (path_join DKR_PATH ''init'') c \<notin> set ev"
      using load_config_prints [of "Write (path_join DKR_PATH ''init'') c" w "config_name args" "template_root args"] lc
      by auto
    with main_events [OF wr] lc obtain cid where
      "Write (path_join DKR_PATH ''init'') c
         \<in> set (fst (compose_and_run w (command args) (stem w (config_name args)) parts cid))"
      by auto
    from compose_events [OF this] init_not_build show ?thesis
      by auto
  qed
  have second: "Print (warn_line n) \<notin> set (fst (main w args))"
  proof
    assume "Print (warn_line n) \<in> set (fst (main w args))"
    from main_events [OF this] show False
    proof (elim disjE exE conjE)
      assume "Print (warn_line n) \<in> set (fst (load_config w (config_name args) (template_root args)))"
      from load_config_error_lines [OF this] warn_line_not_error show False
        by blast
    next
      fix argv assume "Print (warn_line n) = Run argv"
      then show False by simp
    next
      fix ev parts cid
      assume "Print (warn_line n)
        \<in> set (fst (compose_and_run w (command args) (stem w (config_name args)) parts cid))"
      from compose_events [OF this] warn_line_not_docker show False
        by auto
    qed
  qed
  from first second show ?thesis
    by blast
qed

theorem composition_keeps_tokens_witness:
  "load_config demo ''site.yml'' demo_roots = ([], Inr [''hack: true'', vars_yml, site_yml])
   \<and> Write (path_join DKR_PATH ''init'') (str_join MAGIC_SEPARATOR [''hack: true'', vars_yml, site_yml])
       \<in> set (fst (main demo \<lparr>command = ''start-cmd'', config_name = ''site.yml'', template_root = demo_roots\<rparr>))
   \<and> Print (warn_line ''missing_var'')
       \<notin> set (fst (main demo \<lparr>command = ''start-cmd'', config_name = ''site.yml'', template_root = demo_roots\<rparr>))"
proof -
  let ?args = "\<lparr>command = ''start-cmd'', config_name = ''site.yml'', template_root = demo_roots\<rparr>"
  let ?parts = "[''hack: true'', vars_yml, site_yml]"
  have lc: "load_config demo (config_name ?args) (template_root ?args) = ([], Inr ?parts)"
    by code_simp
  have wr: "Write (path_join DKR_PATH ''init'') (str_join MAGIC_SEPARATOR ?parts)
       \<in> set (fst (main demo ?args))"
    by code_simp
  from composition_keeps_tokens [of demo ?args "[]" ?parts "str_join MAGIC_SEPARATOR ?parts" "''missing_var''"]
  have "Print (warn_line ''missing_var'') \<notin> set (fst (main demo ?args))"
    by blast
  with lc wr show ?thesis
    by simp
qed

text \<open>
  C1, as the specification has it, fails: the template of \<^verbatim>\<open>site.yml\<close> sets the parameter
  \<^verbatim>\<open>home\<close> and refers to \<^verbatim>\<open>$home\<close> and to \<^verbatim>\<open>$missing_var\<close>. The run succeeds, the artifact and
  the runtime specification hold \<^verbatim>\<open>$home\<close> as it was written, and the only line printed is
  the command; the substitutor would have changed the text and printed a warning.
\<close>

theorem known_token_not_replaced:
  "main demo \<lparr>command = ''start-cmd'', config_name = ''site.yml'', template_root = demo_roots\<rparr>
     = ([Run [''docker'', ''ps'', ''-q'', ''-f'', ''name=site''],
         Write ''dkr/init'' (str_join MAGIC_SEPARATOR [''hack: true'', vars_yml, site_yml]),
         Write ''dkr/build'' [],
         Print ''docker run --rm -i --name site -e ROOT=$home --expose 80:8080 -p 443/tcp local_discourse/site''],
        Inr ())
   \<and> map_sum id (\<lambda>a. params a (YStr ''home''))
         (process_parts demo ''site'' [''hack: true'', vars_yml, site_yml] init_acc)
       = Inr (Some (YStr ''/var/www''))
   \<and> fst (substitute ascii_word [''home'' \<mapsto> ''/var/www''] vars_yml)
       = ''params: {home: /var/www}'' @ [CHR 0x0A] @ ''env: {ROOT: /var/www}''
         @ [CHR 0x0A] @ ''motd: at /var/www $missing_var'' @ [CHR 0x0A] @ ''expose: [80=8080, 443/tcp]''
   \<and> fst (substitute ascii_word [''home'' \<mapsto> ''/var/www''] vars_yml) \<noteq> vars_yml
   \<and> snd (substitute ascii_word [''home'' \<mapsto> ''/var/www''] vars_yml)
       = [''WARN: found parameter $missing_var but could not substitute it!'']"
  by code_simp

end
